theory Spec2Isabelle
  imports Main
begin

section \<open>The transaction store (src/app/store/transactionStore.ts)\<close>

text \<open>
  The store holds the lifecycle tag of the current transaction, its hash and its error
  message. The four actions are plain field writes: \<open>set({...})\<close> merges the given
  fields into the state and leaves the others alone.
\<close>

datatype TransactionState =
  idle | building | simulating | simulated | signing | signed
  | submitting | submitted | confirming | confirmed | failed

record TransactionStoreState =
  transactionState :: TransactionState
  transactionHash :: "string option"
  transactionError :: "string option"

definition initial_store :: TransactionStoreState where
  "initial_store =
     \<lparr>transactionState = idle, transactionHash = None, transactionError = None\<rparr>"

definition setTransactionState ::
    "TransactionState \<Rightarrow> TransactionStoreState \<Rightarrow> TransactionStoreState" where
  "setTransactionState state s = s\<lparr>transactionState := state\<rparr>"

definition setTransactionHash ::
    "string option \<Rightarrow> TransactionStoreState \<Rightarrow> TransactionStoreState" where
  "setTransactionHash hash s = s\<lparr>transactionHash := hash\<rparr>"

definition setTransactionError ::
    "string option \<Rightarrow> TransactionStoreState \<Rightarrow> TransactionStoreState" where
  "setTransactionError error s = s\<lparr>transactionError := error\<rparr>"

definition resetTransaction :: "TransactionStoreState \<Rightarrow> TransactionStoreState" where
  "resetTransaction s =
     s\<lparr>transactionState := idle, transactionHash := None, transactionError := None\<rparr>"

section \<open>Thrown values\<close>

text \<open>
  What a \<open>catch\<close> clause can receive: an instance of \<open>Error\<close> (of one of the four
  typed classes of \<open>contractErrors\<close>, or of any other class) carrying a message, or a
  value that is not an \<open>Error\<close> instance at all.
\<close>

datatype error_class =
  ContractConfigurationError | InvalidContractAddressError
  | ContractNotFoundError | ContractValidationError | PlainError

datatype js_error = JsError error_class string

fun error_class_of :: "js_error \<Rightarrow> error_class" where
  "error_class_of (JsError c m) = c"

fun message :: "js_error \<Rightarrow> string" where
  "message (JsError c m) = m"

datatype thrown = Thrown js_error | NonError

section \<open>The transaction observer (src/services/transactionObserver.ts)\<close>

subsection \<open>The timer runtime and the observer's fields\<close>

text \<open>
  The observer schedules two callbacks: the polling closure of \<open>setInterval\<close>, which
  captures the hash it polls, and the deadline closure of \<open>setTimeout\<close>. A scheduled
  timer has the handle the runtime returned, its callback, the time at which it is due
  and, for an interval, the period after which it is due again (\<open>repeat_ms\<close>).

  The world is the store, the two handle fields of the singleton observer, and the part
  of the JavaScript runtime the observer depends on: the table of scheduled timers, the
  clock (in milliseconds), the next fresh handle, how many \<open>getTransaction\<close> calls
  are awaiting their answer, and the log of the hashes queried so far. A handle field
  is declared \<open>NodeJS.Timeout | null\<close>: it is null or the timer the runtime returned,
  and the test \<open>if (this.pollInterval)\<close> is the test for non-null.
\<close>

datatype callback = PollTick string | DeadlineTick

record timer =
  handle :: nat
  callback :: callback
  due :: nat
  repeat_ms :: "nat option"

record world =
  store :: TransactionStoreState
  pollInterval :: "nat option"
  timeoutTimer :: "nat option"
  timers :: "timer list"
  clock :: nat
  next_handle :: nat
  in_flight :: nat
  queried :: "string list"

definition initial_world :: world where
  "initial_world =
     \<lparr>store = initial_store, pollInterval = None, timeoutTimer = None, timers = [],
      clock = 0, next_handle = 1, in_flight = 0, queried = []\<rparr>"

definition MAX_POLLING_DURATION :: nat where
  "MAX_POLLING_DURATION = 60000"

definition POLLING_INTERVAL :: nat where
  "POLLING_INTERVAL = 3000"

definition setInterval :: "callback \<Rightarrow> nat \<Rightarrow> world \<Rightarrow> nat \<times> world" where
  "setInterval cb delay w =
     (next_handle w,
      w\<lparr>timers := timers w @
           [\<lparr>handle = next_handle w, callback = cb, due = clock w + delay,
             repeat_ms = Some delay\<rparr>],
        next_handle := Suc (next_handle w)\<rparr>)"

definition setTimeout :: "callback \<Rightarrow> nat \<Rightarrow> world \<Rightarrow> nat \<times> world" where
  "setTimeout cb delay w =
     (next_handle w,
      w\<lparr>timers := timers w @
           [\<lparr>handle = next_handle w, callback = cb, due = clock w + delay,
             repeat_ms = None\<rparr>],
        next_handle := Suc (next_handle w)\<rparr>)"

definition clearInterval :: "nat \<Rightarrow> world \<Rightarrow> world" where
  "clearInterval h w = w\<lparr>timers := filter (\<lambda>t. handle t \<noteq> h) (timers w)\<rparr>"

definition clearTimeout :: "nat \<Rightarrow> world \<Rightarrow> world" where
  "clearTimeout h w = w\<lparr>timers := filter (\<lambda>t. handle t \<noteq> h) (timers w)\<rparr>"

subsection \<open>The observer's methods\<close>

definition setState :: "TransactionState \<Rightarrow> world \<Rightarrow> world" where
  "setState state w = w\<lparr>store := setTransactionState state (store w)\<rparr>"

definition clearTimers :: "world \<Rightarrow> world" where
  "clearTimers w =
     (let w1 = (case pollInterval w of
                  Some h \<Rightarrow> (clearInterval h w)\<lparr>pollInterval := None\<rparr>
                | None \<Rightarrow> w)
      in case timeoutTimer w1 of
           Some h \<Rightarrow> (clearTimeout h w1)\<lparr>timeoutTimer := None\<rparr>
         | None \<Rightarrow> w1)"

definition resetState :: "world \<Rightarrow> world" where
  "resetState w = (let w1 = clearTimers w in w1\<lparr>store := resetTransaction (store w1)\<rparr>)"

definition startTransaction :: "world \<Rightarrow> world" where
  "startTransaction w = setState building (resetState w)"

definition markSimulating :: "world \<Rightarrow> world" where
  "markSimulating w = setState simulating w"

definition markSimulated :: "world \<Rightarrow> world" where
  "markSimulated w = setState simulated w"

definition markSigning :: "world \<Rightarrow> world" where
  "markSigning w = setState signing w"

definition markSigned :: "world \<Rightarrow> world" where
  "markSigned w = setState signed w"

definition markSubmitting :: "world \<Rightarrow> world" where
  "markSubmitting w = setState submitting w"

text \<open>
  \<open>markFailed\<close> takes an \<open>Error\<close> or a string; the message stored is the error's
  message or the string itself.
\<close>

definition markFailed :: "js_error + string \<Rightarrow> world \<Rightarrow> world" where
  "markFailed error w =
     (let w1 = clearTimers w;
          errorMessage = (case error of Inl e \<Rightarrow> message e | Inr s \<Rightarrow> s);
          w2 = w1\<lparr>store := setTransactionError (Some errorMessage) (store w1)\<rparr>
      in setState failed w2)"

definition startPolling :: "string \<Rightarrow> world \<Rightarrow> world" where
  "startPolling txHash w =
     (let w1 = setState confirming w;
          w2 = clearTimers w1;
          (i, w3) = setInterval (PollTick txHash) POLLING_INTERVAL w2;
          w4 = w3\<lparr>pollInterval := Some i\<rparr>;
          (j, w5) = setTimeout DeadlineTick MAX_POLLING_DURATION w4
      in w5\<lparr>timeoutTimer := Some j\<rparr>)"

definition markSubmitted :: "string \<Rightarrow> world \<Rightarrow> world" where
  "markSubmitted txHash w =
     startPolling txHash
       (setState submitted (w\<lparr>store := setTransactionHash (Some txHash) (store w)\<rparr>))"

text \<open>
  \<open>resumeIfPending\<close> tests the stored hash for truthiness: a string that is neither
  null nor empty.
\<close>

definition resumeIfPending :: "world \<Rightarrow> world" where
  "resumeIfPending w =
     (let state = store w in
      if transactionState state = submitted \<or> transactionState state = confirming
      then (case transactionHash state of
              Some h \<Rightarrow> if h \<noteq> [] then startPolling h w else w
            | None \<Rightarrow> w)
      else w)"

subsection \<open>The status query and the timer callbacks\<close>

text \<open>
  \<open>checkTransactionStatus\<close> awaits \<open>server.getTransaction\<close>. The call is issued when
  the interval callback runs; what follows the \<open>await\<close> runs later, when the answer
  arrives, and in between any other code may run. The answer is a response with one of
  the three statuses, a falsy response, or a rejection, which the \<open>catch\<close> only logs.
\<close>

datatype GetTransactionStatus = SUCCESS | NOT_FOUND | FAILED

datatype query_outcome = Response GetTransactionStatus | NoResponse | Rejected

fun checkTransactionStatus :: "query_outcome \<Rightarrow> world \<Rightarrow> world" where
  "checkTransactionStatus (Response SUCCESS) w = setState confirmed (clearTimers w)"
| "checkTransactionStatus (Response FAILED) w =
     markFailed (Inr ''Transaction failed on the ledger.'') (clearTimers w)"
| "checkTransactionStatus (Response NOT_FOUND) w = w"
| "checkTransactionStatus NoResponse w = w"
| "checkTransactionStatus Rejected w = w"

fun run_callback :: "callback \<Rightarrow> world \<Rightarrow> world" where
  "run_callback (PollTick txHash) w =
     w\<lparr>in_flight := Suc (in_flight w), queried := queried w @ [txHash]\<rparr>"
| "run_callback DeadlineTick w =
     markFailed (Inr ''Transaction confirmation timed out after 60 seconds.'')
       (clearTimers w)"

text \<open>
  What the runtime does on its own: time passes; a scheduled timer that is due fires (an
  interval is scheduled again one period later, a timeout leaves the table), and a timer
  that is not in the table never fires; a query in flight is answered.
\<close>

datatype event = Elapse nat | Fire nat | Settle query_outcome

definition fire :: "nat \<Rightarrow> world \<Rightarrow> world" where
  "fire h w =
     (case find (\<lambda>t. handle t = h) (timers w) of
        None \<Rightarrow> w
      | Some t \<Rightarrow>
          if clock w < due t then w
          else
            (let rest = filter (\<lambda>u. handle u \<noteq> h) (timers w);
                 w1 = (case repeat_ms t of
                         Some p \<Rightarrow> w\<lparr>timers := rest @ [t\<lparr>due := clock w + p\<rparr>]\<rparr>
                       | None \<Rightarrow> w\<lparr>timers := rest\<rparr>)
             in run_callback (callback t) w1))"

definition settle :: "query_outcome \<Rightarrow> world \<Rightarrow> world" where
  "settle r w =
     (if in_flight w = 0 then w
      else checkTransactionStatus r (w\<lparr>in_flight := in_flight w - 1\<rparr>))"

fun env_step :: "event \<Rightarrow> world \<Rightarrow> world" where
  "env_step (Elapse d) w = w\<lparr>clock := clock w + d\<rparr>"
| "env_step (Fire h) w = fire h w"
| "env_step (Settle r) w = settle r w"

fun run_env :: "event list \<Rightarrow> world \<Rightarrow> world" where
  "run_env [] w = w"
| "run_env (e # es) w = run_env es (env_step e w)"

text \<open>The public methods of the observer, as calls a client can make in any order.\<close>

datatype call =
  StartTransaction | MarkSimulating | MarkSimulated | MarkSigning | MarkSigned
  | MarkSubmitting | MarkSubmitted string | MarkFailed "js_error + string"
  | ResetState | ResumeIfPending

fun call_step :: "call \<Rightarrow> world \<Rightarrow> world" where
  "call_step StartTransaction w = startTransaction w"
| "call_step MarkSimulating w = markSimulating w"
| "call_step MarkSimulated w = markSimulated w"
| "call_step MarkSigning w = markSigning w"
| "call_step MarkSigned w = markSigned w"
| "call_step MarkSubmitting w = markSubmitting w"
| "call_step (MarkSubmitted txHash) w = markSubmitted txHash w"
| "call_step (MarkFailed error) w = markFailed error w"
| "call_step ResetState w = resetState w"
| "call_step ResumeIfPending w = resumeIfPending w"

datatype action = Call call | Env event

fun step :: "action \<Rightarrow> world \<Rightarrow> world" where
  "step (Call c) w = call_step c w"
| "step (Env e) w = env_step e w"

fun run :: "action list \<Rightarrow> world \<Rightarrow> world" where
  "run [] w = w"
| "run (a # as) w = run as (step a w)"

text \<open>
  The observer owns its timers: every scheduled timer is the one a handle field refers
  to, and no handle is scheduled twice.
\<close>

definition owns_timers :: "world \<Rightarrow> bool" where
  "owns_timers w =
     (distinct (map handle (timers w)) \<and>
      list_all (\<lambda>t. pollInterval w = Some (handle t) \<or> timeoutTimer w = Some (handle t))
        (timers w))"

text \<open>Nothing is scheduled and no query awaits its answer.\<close>

definition quiet :: "world \<Rightarrow> bool" where
  "quiet w = (timers w = [] \<and> in_flight w = 0)"

text \<open>
  Kinds of events: the status query answers \<open>NOT_FOUND\<close> whenever it answers; the
  status query is rejected whenever it is answered; no answer is \<open>SUCCESS\<close> or
  \<open>FAILED\<close>.
\<close>

fun not_found_only :: "event \<Rightarrow> bool" where
  "not_found_only (Settle r) = (r = Response NOT_FOUND)"
| "not_found_only (Elapse d) = True"
| "not_found_only (Fire h) = True"

fun rejected_only :: "event \<Rightarrow> bool" where
  "rejected_only (Settle r) = (r = Rejected)"
| "rejected_only (Elapse d) = True"
| "rejected_only (Fire h) = True"

fun no_verdict :: "event \<Rightarrow> bool" where
  "no_verdict (Settle r) = (r \<noteq> Response SUCCESS \<and> r \<noteq> Response FAILED)"
| "no_verdict (Elapse d) = True"
| "no_verdict (Fire h) = True"

section \<open>The orchestrator (src/app/utils/walletKit.ts)\<close>

subsection \<open>The bridged observer\<close>

text \<open>
  The contract bridge reports its progress to an observer callback as a state name and
  an optional payload. The \<open>switch\<close> of \<open>bridgedObserver\<close> names six states and has
  no default branch; \<open>bridge_other\<close> stands for any other state name. Of the payload
  only the presence and the value of the keys \<open>transactionHash\<close> and \<open>error\<close>
  are read; a payload that is not an object is \<open>None\<close>.

  The caller's observer either returns or throws; it is called with no \<open>try\<close>
  around it.
\<close>

datatype bridge_state =
  bridge_pending | bridge_simulating | bridge_signed | bridge_submitted
  | bridge_confirmed | bridge_failed | bridge_other

record payload =
  payload_transactionHash :: "string option"
  payload_error :: "string option"

type_synonym caller_observer = "bridge_state \<Rightarrow> payload option \<Rightarrow> thrown option"

definition update_store ::
    "bridge_state \<Rightarrow> payload option \<Rightarrow> TransactionStoreState \<Rightarrow> TransactionStoreState" where
  "update_store state data s =
     (case state of
        bridge_pending \<Rightarrow> setTransactionState building s
      | bridge_simulating \<Rightarrow> setTransactionState simulating s
      | bridge_signed \<Rightarrow> setTransactionState signing s
      | bridge_submitted \<Rightarrow> setTransactionState submitting s
      | bridge_confirmed \<Rightarrow>
          (let s1 = setTransactionState confirmed s in
           case data of
             Some d \<Rightarrow>
               (case payload_transactionHash d of
                  Some h \<Rightarrow> setTransactionHash (Some h) s1
                | None \<Rightarrow> s1)
           | None \<Rightarrow> s1)
      | bridge_failed \<Rightarrow>
          (let s1 = setTransactionState failed s in
           case data of
             Some d \<Rightarrow>
               (case payload_error d of
                  Some e \<Rightarrow> setTransactionError (Some e) s1
                | None \<Rightarrow> s1)
           | None \<Rightarrow> s1)
      | bridge_other \<Rightarrow> s)"

definition bridgedObserver ::
    "caller_observer option \<Rightarrow> bridge_state \<Rightarrow> payload option \<Rightarrow> TransactionStoreState
      \<Rightarrow> thrown option \<times> TransactionStoreState" where
  "bridgedObserver observer state data s =
     (case (case observer of Some f \<Rightarrow> f state data | None \<Rightarrow> None) of
        Some e \<Rightarrow> (Some e, s)
      | None \<Rightarrow> (None, update_store state data s))"

subsection \<open>Resolving the statistics\<close>

text \<open>
  Modelled from the spec: the type \<open>Network\<close> of the configuration module, which is
  not among the sources; the spec gives it as a closed set such as mainnet and testnet.
\<close>

datatype Network = mainnet | testnet

text \<open>
  JavaScript numbers are taken as integers here: only the test against zero of
  \<open>x || 0\<close> is modelled, which is the same for them.
\<close>

record IndexedStats =
  totalVolume :: int
  mostActiveAsset :: string
  contractCalls :: int
  timeframe :: "string option"

record WrappedData =
  data_totalVolume :: "int option"
  data_mostActiveAsset :: "string option"
  data_contractCalls :: "int option"

text \<open>
  What \<open>fetch\<close> and \<open>response.json()\<close> can do: reject, or answer; the body parses
  to a value whose properties can be read (a missing property is \<open>None\<close>) or to null,
  where reading a property throws.
\<close>

datatype json_outcome = JsonRejected | JsonNull | JsonData WrappedData

datatype fetch_outcome = FetchRejected | FetchResponse bool string json_outcome

definition default_stats :: IndexedStats where
  "default_stats =
     \<lparr>totalVolume = 0, mostActiveAsset = ''XLM'', contractCalls = 0, timeframe = None\<rparr>"

text \<open>The body of the \<open>try\<close> of \<open>fetchIndexedStats\<close>; \<open>None\<close> when it throws.\<close>

definition fetchIndexedStats_try ::
    "(string \<Rightarrow> Network \<Rightarrow> string \<Rightarrow> fetch_outcome) \<Rightarrow> string \<Rightarrow> Network \<Rightarrow> string
      \<Rightarrow> IndexedStats option" where
  "fetchIndexedStats_try fetch accountAddress net period =
     (case fetch accountAddress net period of
        FetchRejected \<Rightarrow> None
      | FetchResponse ok statusText body \<Rightarrow>
          if \<not> ok then None
          else (case body of
                  JsonRejected \<Rightarrow> None
                | JsonNull \<Rightarrow> None
                | JsonData d \<Rightarrow>
                    Some \<lparr>totalVolume =
                            (case data_totalVolume d of
                               Some v \<Rightarrow> if v = 0 then 0 else v | None \<Rightarrow> 0),
                          mostActiveAsset =
                            (case data_mostActiveAsset d of
                               Some a \<Rightarrow> if a = [] then ''XLM'' else a | None \<Rightarrow> ''XLM''),
                          contractCalls =
                            (case data_contractCalls d of
                               Some v \<Rightarrow> if v = 0 then 0 else v | None \<Rightarrow> 0),
                          timeframe = None\<rparr>))"

definition fetchIndexedStats ::
    "(string \<Rightarrow> Network \<Rightarrow> string \<Rightarrow> fetch_outcome) \<Rightarrow> string \<Rightarrow> Network \<Rightarrow> string
      \<Rightarrow> IndexedStats" where
  "fetchIndexedStats fetch accountAddress net period =
     (case fetchIndexedStats_try fetch accountAddress net period of
        Some st \<Rightarrow> st
      | None \<Rightarrow> default_stats)"

subsection \<open>mintWrap\<close>

text \<open>
  The collaborators of \<open>mintWrap\<close> are parameters: whether \<open>initWalletKit\<close> throws,
  what the statistics API answers, and the contract bridge \<open>contractMintWrap\<close>, which
  is not among the sources. The bridge is any function that, given the options (with the
  bridged observer in them) and the store, returns a transaction hash or throws, and
  leaves the store in some state.
\<close>

record MintWrapParams =
  userAddress :: string
  network :: Network
  stats :: "IndexedStats option"
  observer :: "caller_observer option"

record MintWrapOptions =
  accountAddress :: string
  options_network :: Network
  options_stats :: IndexedStats
  options_observer ::
    "bridge_state \<Rightarrow> payload option \<Rightarrow> TransactionStoreState
      \<Rightarrow> thrown option \<times> TransactionStoreState"

record environment =
  initWalletKit :: "thrown option"
  fetch :: "string \<Rightarrow> Network \<Rightarrow> string \<Rightarrow> fetch_outcome"
  contractMintWrap ::
    "MintWrapOptions \<Rightarrow> TransactionStoreState
      \<Rightarrow> (thrown + string) \<times> TransactionStoreState"

definition resolve_stats :: "environment \<Rightarrow> MintWrapParams \<Rightarrow> IndexedStats" where
  "resolve_stats env params =
     (case stats params of
        Some st \<Rightarrow> st
      | None \<Rightarrow> fetchIndexedStats (fetch env) (userAddress params) (network params) ''yearly'')"

definition mintOptions :: "MintWrapParams \<Rightarrow> IndexedStats \<Rightarrow> MintWrapOptions" where
  "mintOptions params finalStats =
     \<lparr>accountAddress = userAddress params,
      options_network = network params,
      options_stats =
        \<lparr>totalVolume = totalVolume finalStats,
         mostActiveAsset = mostActiveAsset finalStats,
         contractCalls = contractCalls finalStats,
         timeframe =
           Some (case timeframe finalStats of
                   Some t \<Rightarrow> if t = [] then ''all'' else t
                 | None \<Rightarrow> ''all'')\<rparr>,
      options_observer = bridgedObserver (observer params)\<rparr>"

text \<open>
  The body of the \<open>try\<close>: the value returned or the value thrown, and the store at
  that point.
\<close>

definition mintWrap_try ::
    "environment \<Rightarrow> MintWrapParams \<Rightarrow> TransactionStoreState
      \<Rightarrow> (thrown + string) \<times> TransactionStoreState" where
  "mintWrap_try env params s =
     (case initWalletKit env of
        Some e \<Rightarrow> (Inl e, s)
      | None \<Rightarrow>
          (let finalStats = resolve_stats env params;
               s1 = setTransactionState building (resetTransaction s)
           in case contractMintWrap env (mintOptions params finalStats) s1 of
                (Inl e, s2) \<Rightarrow> (Inl e, s2)
              | (Inr hash, s2) \<Rightarrow>
                  (Inr hash,
                   setTransactionHash (Some hash) (setTransactionState confirmed s2))))"

definition is_typed_error :: "js_error \<Rightarrow> bool" where
  "is_typed_error e =
     (error_class_of e = ContractConfigurationError \<or>
      error_class_of e = InvalidContractAddressError \<or>
      error_class_of e = ContractNotFoundError \<or>
      error_class_of e = ContractValidationError)"

definition mintWrap_catch ::
    "thrown \<Rightarrow> TransactionStoreState \<Rightarrow> (thrown + string) \<times> TransactionStoreState" where
  "mintWrap_catch error s =
     (case error of
        Thrown e \<Rightarrow>
          if is_typed_error e then (Inl error, s)
          else (Inl (Thrown (JsError PlainError (''Minting failed: '' @ message e))),
                setTransactionError (Some (message e)) (setTransactionState failed s))
      | NonError \<Rightarrow>
          (let genericError = JsError PlainError ''Minting failed: Unknown error occurred''
           in (Inl (Thrown genericError),
               setTransactionError (Some (message genericError))
                 (setTransactionState failed s))))"

definition mintWrap ::
    "environment \<Rightarrow> MintWrapParams \<Rightarrow> TransactionStoreState
      \<Rightarrow> (thrown + string) \<times> TransactionStoreState" where
  "mintWrap env params s =
     (case mintWrap_try env params s of
        (Inr hash, s') \<Rightarrow> (Inr hash, s')
      | (Inl error, s') \<Rightarrow> mintWrap_catch error s')"

section \<open>The observer-driven mintWrap (src/unnamed/part\_000)\<close>

text \<open>
  This \<open>mintWrap\<close> drives the singleton observer. Its contract call is a placeholder
  that always throws an \<open>Error\<close>; the contract address is the environment variable,
  or a placeholder when that is unset or empty.
\<close>

definition CONTRACT_ADDRESS :: "string option \<Rightarrow> string" where
  "CONTRACT_ADDRESS env_value =
     (case env_value of
        Some a \<Rightarrow>
          if a = [] then ''CAAAAAAAAAAAAAAAAAAAAAAAAAAAAAAAAAAAAAAAAAAAAAAAAAAAAAAAAA'' else a
      | None \<Rightarrow> ''CAAAAAAAAAAAAAAAAAAAAAAAAAAAAAAAAAAAAAAAAAAAAAAAAAAAAAAAAA'')"

definition invokeMintWrapContract :: "string option \<Rightarrow> string \<Rightarrow> js_error + string" where
  "invokeMintWrapContract env_value user =
     Inl (JsError PlainError
       (''Contract integration pending. The mint_wrap function will be implemented by the contract engineer. ''
        @ ''Contract address: '' @ CONTRACT_ADDRESS env_value @ '', User: '' @ user))"

definition mintWrap_part_000_try ::
    "thrown option \<Rightarrow> string option \<Rightarrow> string \<Rightarrow> world \<Rightarrow> (thrown + string) \<times> world" where
  "mintWrap_part_000_try init env_value user w =
     (case init of
        Some e \<Rightarrow> (Inl e, w)
      | None \<Rightarrow>
          (let w1 = startTransaction w;
               w2 = markSimulating w1
           in case invokeMintWrapContract env_value user of
                Inl e \<Rightarrow> (Inl (Thrown e), w2)
              | Inr txHash \<Rightarrow> (Inr txHash, w2)))"

definition mintWrap_part_000_catch :: "thrown \<Rightarrow> world \<Rightarrow> (js_error + string) \<times> world" where
  "mintWrap_part_000_catch error w =
     (case error of
        Thrown e \<Rightarrow>
          (Inl (JsError PlainError (''Minting failed: '' @ message e)),
           markFailed (Inl e) w)
      | NonError \<Rightarrow>
          (let genericError = JsError PlainError ''Minting failed: Unknown error occurred''
           in (Inl genericError, markFailed (Inl genericError) w)))"

definition mintWrap_part_000 ::
    "thrown option \<Rightarrow> string option \<Rightarrow> string \<Rightarrow> world \<Rightarrow> (js_error + string) \<times> world" where
  "mintWrap_part_000 init env_value user w =
     (case mintWrap_part_000_try init env_value user w of
        (Inr txHash, w') \<Rightarrow> (Inr txHash, w')
      | (Inl error, w') \<Rightarrow> mintWrap_part_000_catch error w')"

section \<open>Predicates and sample inputs used in the properties\<close>

text \<open>Every scheduled timer and the next handle are at least \<open>n\<close>.\<close>

definition handles_from :: "nat \<Rightarrow> world \<Rightarrow> bool" where
  "handles_from n w = (n \<le> next_handle w \<and> list_all (\<lambda>t. n \<le> handle t) (timers w))"

definition failed_has_error :: "world \<Rightarrow> bool" where
  "failed_has_error w =
     (transactionState (store w) = failed \<longrightarrow> transactionError (store w) \<noteq> None)"

text \<open>The test of \<open>resumeIfPending\<close>.\<close>

definition pending_with_hash :: "world \<Rightarrow> bool" where
  "pending_with_hash w =
     ((transactionState (store w) = submitted \<or> transactionState (store w) = confirming) \<and>
      (case transactionHash (store w) of Some h \<Rightarrow> h \<noteq> [] | None \<Rightarrow> False))"

text \<open>
  A polling session for \<open>txHash\<close> is under way: the interval \<open>i\<close> and the deadline
  \<open>j\<close>, due at \<open>D\<close>, are scheduled and are the observer's timers, and the store
  is \<open>s\<close>.
\<close>

definition awaiting_deadline ::
    "string \<Rightarrow> nat \<Rightarrow> nat \<Rightarrow> nat \<Rightarrow> TransactionStoreState \<Rightarrow> world \<Rightarrow> bool" where
  "awaiting_deadline txHash i j D s w =
     (owns_timers w \<and> pollInterval w = Some i \<and> timeoutTimer w = Some j \<and> i \<noteq> j \<and>
      store w = s \<and>
      list_all (\<lambda>t. if handle t = j
                     then callback t = DeadlineTick \<and> due t = D \<and> repeat_ms t = None
                     else callback t = PollTick txHash \<and> repeat_ms t \<noteq> None) (timers w) \<and>
      i \<in> handle ` set (timers w) \<and> j \<in> handle ` set (timers w))"

definition timed_out :: "nat \<Rightarrow> world \<Rightarrow> bool" where
  "timed_out D w =
     (timers w = [] \<and> D \<le> clock w \<and> transactionState (store w) = failed \<and>
      transactionError (store w) =
        Some ''Transaction confirmation timed out after 60 seconds.'')"

text \<open>
  Sample inputs: a caller's observer that throws on every call, parameters without
  statistics or observer, and collaborators whose statistics API rejects and whose bridge
  throws a given value, or returns a hash, at once.
\<close>

definition throwing_observer :: caller_observer where
  "throwing_observer state data = Some NonError"

definition sample_params :: MintWrapParams where
  "sample_params =
     \<lparr>userAddress = ''GABC'', network = testnet, stats = None, observer = None\<rparr>"

definition failing_bridge :: "thrown \<Rightarrow> environment" where
  "failing_bridge x =
     \<lparr>initWalletKit = None,
      fetch = (\<lambda>accountId net period. FetchRejected),
      contractMintWrap = (\<lambda>opts s. (Inl x, s))\<rparr>"

definition returning_bridge :: environment where
  "returning_bridge =
     \<lparr>initWalletKit = None,
      fetch = (\<lambda>accountId net period. FetchResponse False ''Bad Gateway'' JsonRejected),
      contractMintWrap = (\<lambda>opts s. (Inr (mostActiveAsset (options_stats opts)), s))\<rparr>"

section \<open>Field-wise descriptions of the observer's methods\<close>

lemmas observer_defs =
  initial_world_def initial_store_def markSubmitted_def startPolling_def
  setState_def setTransactionState_def setTransactionHash_def setTransactionError_def
  clearTimers_def clearInterval_def clearTimeout_def setInterval_def setTimeout_def
  fire_def settle_def startTransaction_def resetState_def resetTransaction_def
  markSimulating_def markSimulated_def markSigning_def markSigned_def markSubmitting_def
  markFailed_def resumeIfPending_def Let_def POLLING_INTERVAL_def MAX_POLLING_DURATION_def

lemma store_updates:
  "setTransactionState st s = s\<lparr>transactionState := st\<rparr>"
  "setTransactionHash h s = s\<lparr>transactionHash := h\<rparr>"
  "setTransactionError e s = s\<lparr>transactionError := e\<rparr>"
  "resetTransaction s =
     \<lparr>transactionState = idle, transactionHash = None, transactionError = None\<rparr>"
  by (simp_all add: setTransactionState_def setTransactionHash_def setTransactionError_def
      resetTransaction_def)

lemma clearTimers_fields:
  "store (clearTimers w) = store w"
  "pollInterval (clearTimers w) = None"
  "timeoutTimer (clearTimers w) = None"
  "clock (clearTimers w) = clock w"
  "next_handle (clearTimers w) = next_handle w"
  "in_flight (clearTimers w) = in_flight w"
  "queried (clearTimers w) = queried w"
  by (simp_all add: clearTimers_def clearInterval_def clearTimeout_def Let_def
      split: option.splits)

lemma clearTimers_timers:
  "timers (clearTimers w) =
     filter (\<lambda>t. pollInterval w \<noteq> Some (handle t) \<and> timeoutTimer w \<noteq> Some (handle t))
       (timers w)"
  by (auto simp: clearTimers_def clearInterval_def clearTimeout_def Let_def
      split: option.splits intro: filter_cong)

lemma clearTimers_empty:
  "owns_timers w \<Longrightarrow> timers (clearTimers w) = []"
  by (auto simp: clearTimers_timers owns_timers_def list_all_iff filter_empty_conv)

lemma owns_timers_nil:
  "timers w = [] \<Longrightarrow> owns_timers w"
  by (simp add: owns_timers_def)

lemma owns_clearTimers: "owns_timers w \<Longrightarrow> owns_timers (clearTimers w)"
  by (simp add: owns_timers_nil clearTimers_empty)

lemma setState_fields:
  "store (setState st w) = setTransactionState st (store w)"
  "pollInterval (setState st w) = pollInterval w"
  "timeoutTimer (setState st w) = timeoutTimer w"
  "timers (setState st w) = timers w"
  "clock (setState st w) = clock w"
  "next_handle (setState st w) = next_handle w"
  "in_flight (setState st w) = in_flight w"
  "queried (setState st w) = queried w"
  by (simp_all add: setState_def)

lemma owns_setState: "owns_timers (setState st w) = owns_timers w"
  by (simp add: owns_timers_def setState_fields)

lemma markFailed_fields:
  "store (markFailed e w) =
     \<lparr>transactionState = failed, transactionHash = transactionHash (store w),
      transactionError = Some (case e of Inl x \<Rightarrow> message x | Inr s \<Rightarrow> s)\<rparr>"
  "pollInterval (markFailed e w) = None"
  "timeoutTimer (markFailed e w) = None"
  "timers (markFailed e w) = timers (clearTimers w)"
  "clock (markFailed e w) = clock w"
  "next_handle (markFailed e w) = next_handle w"
  "in_flight (markFailed e w) = in_flight w"
  "queried (markFailed e w) = queried w"
  by (simp_all add: markFailed_def Let_def setState_fields clearTimers_fields
      setTransactionError_def setTransactionState_def)

lemma resetState_fields:
  "store (resetState w) = initial_store"
  "pollInterval (resetState w) = None"
  "timeoutTimer (resetState w) = None"
  "timers (resetState w) = timers (clearTimers w)"
  "clock (resetState w) = clock w"
  "next_handle (resetState w) = next_handle w"
  "in_flight (resetState w) = in_flight w"
  "queried (resetState w) = queried w"
  by (simp_all add: resetState_def Let_def clearTimers_fields resetTransaction_def
      initial_store_def)

lemma startPolling_fields:
  "store (startPolling h w) = setTransactionState confirming (store w)"
  "pollInterval (startPolling h w) = Some (next_handle w)"
  "timeoutTimer (startPolling h w) = Some (Suc (next_handle w))"
  "timers (startPolling h w) = timers (clearTimers w) @
     [\<lparr>handle = next_handle w, callback = PollTick h, due = clock w + POLLING_INTERVAL,
       repeat_ms = Some POLLING_INTERVAL\<rparr>,
      \<lparr>handle = Suc (next_handle w), callback = DeadlineTick,
       due = clock w + MAX_POLLING_DURATION, repeat_ms = None\<rparr>]"
  "clock (startPolling h w) = clock w"
  "next_handle (startPolling h w) = Suc (Suc (next_handle w))"
  "in_flight (startPolling h w) = in_flight w"
  "queried (startPolling h w) = queried w"
  by (simp_all add: startPolling_def Let_def setInterval_def setTimeout_def
      setState_fields clearTimers_fields clearTimers_timers)

lemma owns_startPolling: "owns_timers w \<Longrightarrow> owns_timers (startPolling h w)"
  by (simp add: owns_timers_def startPolling_fields clearTimers_empty)

lemma owns_markFailed: "owns_timers w \<Longrightarrow> owns_timers (markFailed e w)"
  by (simp add: owns_timers_nil markFailed_fields clearTimers_empty)

lemma owns_resetState: "owns_timers w \<Longrightarrow> owns_timers (resetState w)"
  by (simp add: owns_timers_nil resetState_fields clearTimers_empty)

lemma owns_store_update: "owns_timers (w\<lparr>store := x\<rparr>) = owns_timers w"
  by (simp add: owns_timers_def)

lemma owns_call_step: "owns_timers w \<Longrightarrow> owns_timers (call_step c w)"
  by (cases c)
    (simp_all add: startTransaction_def markSimulating_def markSimulated_def
      markSigning_def markSigned_def markSubmitting_def markSubmitted_def
      resumeIfPending_def Let_def owns_setState owns_resetState owns_markFailed
      owns_startPolling owns_store_update split: option.splits)

lemma owns_checkTransactionStatus:
  "owns_timers w \<Longrightarrow> owns_timers (checkTransactionStatus r w)"
  by (induction r w rule: checkTransactionStatus.induct)
    (simp_all add: owns_setState owns_clearTimers owns_markFailed)

lemma owns_settle: "owns_timers w \<Longrightarrow> owns_timers (settle r w)"
proof (cases "in_flight w = 0")
  case True
  assume "owns_timers w"
  with True show ?thesis by (simp add: settle_def)
next
  case False
  assume "owns_timers w"
  then have "owns_timers (w\<lparr>in_flight := in_flight w - 1\<rparr>)"
    by (simp add: owns_timers_def)
  with False show ?thesis by (simp add: settle_def owns_checkTransactionStatus)
qed

lemma owns_run_callback: "owns_timers w \<Longrightarrow> owns_timers (run_callback cb w)"
  by (cases cb) (simp_all add: owns_markFailed owns_clearTimers, simp add: owns_timers_def)

lemma owns_fire: "owns_timers w \<Longrightarrow> owns_timers (fire h w)"
proof (cases "find (\<lambda>t. handle t = h) (timers w)")
  case None
  assume "owns_timers w"
  with None show ?thesis by (simp add: fire_def)
next
  case (Some t)
  assume own: "owns_timers w"
  from Some have t: "t \<in> set (timers w)" "handle t = h"
    by (auto simp: find_Some_iff)
  have rest: "owns_timers (w\<lparr>timers := filter (\<lambda>u. handle u \<noteq> h) (timers w)\<rparr>)"
    using own by (auto simp: owns_timers_def list_all_iff distinct_map_filter)
  have again: "owns_timers
      (w\<lparr>timers := filter (\<lambda>u. handle u \<noteq> h) (timers w) @ [t\<lparr>due := clock w + p\<rparr>]\<rparr>)" for p
    using own t by (auto simp: owns_timers_def list_all_iff distinct_map_filter)
  show ?thesis
    using Some rest again own
    by (simp add: fire_def Let_def owns_run_callback split: option.splits)
qed

lemma owns_env_step: "owns_timers w \<Longrightarrow> owns_timers (env_step e w)"
  by (cases e) (simp_all add: owns_fire owns_settle, simp add: owns_timers_def)

lemma owns_run_env: "owns_timers w \<Longrightarrow> owns_timers (run_env es w)"
  by (induction es arbitrary: w) (simp_all add: owns_env_step)

lemma owns_run: "owns_timers w \<Longrightarrow> owns_timers (run as w)"
proof (induction as arbitrary: w)
  case Nil
  then show ?case by simp
next
  case (Cons a as)
  then show ?case by (cases a) (simp_all add: owns_call_step owns_env_step)
qed

lemma no_timers_env_step:
  "timers w = [] \<Longrightarrow>
     timers (env_step e w) = [] \<and> queried (env_step e w) = queried w"
proof (cases e)
  case (Elapse d)
  assume "timers w = []"
  with Elapse show ?thesis by simp
next
  case (Fire h)
  assume "timers w = []"
  with Fire show ?thesis by (simp add: fire_def)
next
  case (Settle r)
  assume "timers w = []"
  with Settle show ?thesis
    by (cases "(r, w)" rule: checkTransactionStatus.cases)
      (simp_all add: settle_def setState_fields markFailed_fields clearTimers_fields
        clearTimers_timers)
qed

lemma no_timers_run_env:
  "timers w = [] \<Longrightarrow>
     timers (run_env es w) = [] \<and> queried (run_env es w) = queried w"
proof (induction es arbitrary: w)
  case Nil
  then show ?case by simp
next
  case (Cons e es)
  from Cons.prems have step: "timers (env_step e w) = []" "queried (env_step e w) = queried w"
    by (simp_all add: no_timers_env_step)
  from Cons.IH [OF step(1)] step(2) show ?case by simp
qed

lemma quiet_env_step:
  "quiet w \<Longrightarrow> quiet (env_step e w) \<and> store (env_step e w) = store w
     \<and> pollInterval (env_step e w) = pollInterval w
     \<and> timeoutTimer (env_step e w) = timeoutTimer w"
  by (cases e) (simp_all add: quiet_def fire_def settle_def)

lemma quiet_run_env:
  "quiet w \<Longrightarrow> quiet (run_env es w) \<and> store (run_env es w) = store w
     \<and> pollInterval (run_env es w) = pollInterval w
     \<and> timeoutTimer (run_env es w) = timeoutTimer w"
proof (induction es arbitrary: w)
  case Nil
  then show ?case by simp
next
  case (Cons e es)
  from quiet_env_step [OF Cons.prems, of e] Cons.IH [of "env_step e w"]
  show ?case by simp
qed

lemma clearTimers_subset: "set (timers (clearTimers w)) \<subseteq> set (timers w)"
  by (auto simp: clearTimers_timers)

lemma checkTransactionStatus_timers:
  "set (timers (checkTransactionStatus r w)) \<subseteq> set (timers w)"
  "next_handle (checkTransactionStatus r w) = next_handle w"
  using clearTimers_subset [of w] clearTimers_subset [of "clearTimers w"]
  by (cases "(r, w)" rule: checkTransactionStatus.cases;
      auto simp: setState_fields markFailed_fields clearTimers_fields)+

lemma run_callback_timers:
  "set (timers (run_callback cb w)) \<subseteq> set (timers w)"
  "next_handle (run_callback cb w) = next_handle w"
  using clearTimers_subset [of w] clearTimers_subset [of "clearTimers w"]
  by (cases cb; auto simp: markFailed_fields clearTimers_fields)+

lemma fire_handles:
  "handle ` set (timers (fire h w)) \<subseteq> handle ` set (timers w)"
  "next_handle (fire h w) = next_handle w"
proof -
  show "next_handle (fire h w) = next_handle w"
    by (simp add: fire_def Let_def run_callback_timers split: option.splits)
  show "handle ` set (timers (fire h w)) \<subseteq> handle ` set (timers w)"
  proof (cases "find (\<lambda>t. handle t = h) (timers w)")
    case None
    then show ?thesis by (simp add: fire_def)
  next
    case (Some t)
    then have t: "t \<in> set (timers w)" "handle t = h"
      by (auto simp: find_Some_iff)
    show ?thesis
    proof (cases "clock w < due t")
      case True
      with Some show ?thesis by (simp add: fire_def)
    next
      case False
      define rest where "rest = filter (\<lambda>u. handle u \<noteq> h) (timers w)"
      define w1 where "w1 = (case repeat_ms t of
          Some p \<Rightarrow> w\<lparr>timers := rest @ [t\<lparr>due := clock w + p\<rparr>]\<rparr>
        | None \<Rightarrow> w\<lparr>timers := rest\<rparr>)"
      have eq: "fire h w = run_callback (callback t) w1"
        unfolding w1_def rest_def using Some False by (simp add: fire_def Let_def)
      have "handle ` set (timers w1) \<subseteq> handle ` set (timers w)"
        using t by (auto simp: w1_def rest_def split: option.splits)
      with run_callback_timers(1) [of "callback t" w1] show ?thesis
        unfolding eq by blast
    qed
  qed
qed

lemma settle_timers:
  "set (timers (settle r w)) \<subseteq> set (timers w)"
  "next_handle (settle r w) = next_handle w"
  using checkTransactionStatus_timers [of r "w\<lparr>in_flight := in_flight w - 1\<rparr>"]
  by (auto simp: settle_def)

lemma handles_from_env_step: "handles_from n w \<Longrightarrow> handles_from n (env_step e w)"
proof (cases e)
  case (Elapse d)
  assume "handles_from n w"
  with Elapse show ?thesis by (simp add: handles_from_def)
next
  case (Fire h)
  assume "handles_from n w"
  with Fire fire_handles [of h w] show ?thesis
    by (auto simp: handles_from_def list_all_iff)
next
  case (Settle r)
  assume "handles_from n w"
  with Settle settle_timers [of r w] show ?thesis
    by (auto simp: handles_from_def list_all_iff)
qed

lemma handles_from_clearTimers: "handles_from n w \<Longrightarrow> handles_from n (clearTimers w)"
  using clearTimers_subset [of w]
  by (auto simp: handles_from_def list_all_iff clearTimers_fields)

lemma handles_from_store: "handles_from n (w\<lparr>store := x\<rparr>) = handles_from n w"
  by (simp add: handles_from_def)

lemma handles_from_setState: "handles_from n (setState st w) = handles_from n w"
  by (simp add: handles_from_def setState_fields)

lemma handles_from_markFailed: "handles_from n w \<Longrightarrow> handles_from n (markFailed e w)"
  using handles_from_clearTimers [of n w]
  by (simp add: handles_from_def markFailed_fields clearTimers_fields)

lemma handles_from_resetState: "handles_from n w \<Longrightarrow> handles_from n (resetState w)"
  using handles_from_clearTimers [of n w]
  by (simp add: handles_from_def resetState_fields clearTimers_fields)

lemma handles_from_startPolling: "handles_from n w \<Longrightarrow> handles_from n (startPolling h w)"
  using handles_from_clearTimers [of n w]
  by (simp add: handles_from_def startPolling_fields clearTimers_fields)

lemma handles_from_call_step: "handles_from n w \<Longrightarrow> handles_from n (call_step c w)"
  by (cases c)
    (simp_all add: startTransaction_def markSimulating_def markSimulated_def
      markSigning_def markSigned_def markSubmitting_def markSubmitted_def
      resumeIfPending_def Let_def handles_from_setState handles_from_resetState
      handles_from_markFailed handles_from_startPolling handles_from_store
      split: option.splits)

lemma handles_from_run: "handles_from n w \<Longrightarrow> handles_from n (run as w)"
proof (induction as arbitrary: w)
  case Nil
  then show ?case by simp
next
  case (Cons a as)
  then show ?case
    by (cases a) (simp_all add: handles_from_call_step handles_from_env_step)
qed

lemma fire_stale: "handles_from n w \<Longrightarrow> h < n \<Longrightarrow> fire h w = w"
proof -
  assume a: "handles_from n w" "h < n"
  then have "find (\<lambda>t. handle t = h) (timers w) = None"
    by (auto simp: handles_from_def list_all_iff find_None_iff)
  then show ?thesis by (simp add: fire_def)
qed

lemma startTransaction_fields:
  "store (startTransaction w) =
     \<lparr>transactionState = building, transactionHash = None, transactionError = None\<rparr>"
  "pollInterval (startTransaction w) = None"
  "timeoutTimer (startTransaction w) = None"
  "timers (startTransaction w) = timers (clearTimers w)"
  "clock (startTransaction w) = clock w"
  "next_handle (startTransaction w) = next_handle w"
  "in_flight (startTransaction w) = in_flight w"
  "queried (startTransaction w) = queried w"
  by (simp_all add: startTransaction_def setState_fields resetState_fields initial_store_def
      setTransactionState_def)

lemma reachable_owns_timers: "owns_timers (run as initial_world)"
  by (rule owns_run) (simp add: owns_timers_def initial_world_def)

section \<open>The bridged observer and the caller's observer\<close>

text \<open>
  Claim C1, as stated: a caller's observer that throws on every call does not keep the
  store from recording each transition. It fails: the caller's observer is called first
  and without a \<open>try\<close>, so when it throws the \<open>switch\<close> that writes the store is
  never reached. With the store at \<open>building\<close> and the notification \<open>simulating\<close>, the
  exception comes back and the store still says \<open>building\<close>.
\<close>

theorem throwing_observer_blocks_store:
  "bridgedObserver (Some throwing_observer) bridge_simulating None
     \<lparr>transactionState = building, transactionHash = None, transactionError = None\<rparr>
   = (Some NonError,
      \<lparr>transactionState = building, transactionHash = None, transactionError = None\<rparr>)"
  by (simp add: bridgedObserver_def throwing_observer_def)

text \<open>
  Claim C1, amended: when the caller's observer is absent or returns, the bridged
  observer returns too and the store then holds the tag the \<open>switch\<close> maps the bridge
  state to (pending to building, simulating to simulating, signed to signing, submitted
  to submitting, confirmed to confirmed, failed to failed; any other state leaves the tag
  alone). When the caller's observer throws, the bridged observer throws the same value
  and the store is as it was before the notification.
\<close>

theorem bridgedObserver_store_follows:
  "((case obs of Some f \<Rightarrow> f state data | None \<Rightarrow> None) = None \<longrightarrow>
      fst (bridgedObserver obs state data s) = None \<and>
      transactionState (snd (bridgedObserver obs state data s)) =
        (case state of
           bridge_pending \<Rightarrow> building
         | bridge_simulating \<Rightarrow> simulating
         | bridge_signed \<Rightarrow> signing
         | bridge_submitted \<Rightarrow> submitting
         | bridge_confirmed \<Rightarrow> confirmed
         | bridge_failed \<Rightarrow> failed
         | bridge_other \<Rightarrow> transactionState s)) \<and>
   (\<forall>f e. obs = Some f \<and> f state data = Some e \<longrightarrow>
      bridgedObserver obs state data s = (Some e, s))"
  by (cases state)
    (auto simp: bridgedObserver_def update_store_def store_updates Let_def
      split: option.splits)

theorem bridgedObserver_store_follows_witness:
  "transactionState (snd (bridgedObserver None bridge_signed None initial_store)) = signing \<and>
   bridgedObserver (Some throwing_observer) bridge_signed None initial_store
     = (Some NonError, initial_store)"
  using bridgedObserver_store_follows
    [where obs = None and state = bridge_signed and data = None and s = initial_store]
    bridgedObserver_store_follows
    [where obs = "Some throwing_observer" and state = bridge_signed and data = None
       and s = initial_store]
  by (simp add: throwing_observer_def)

section \<open>The error policy of mintWrap\<close>

text \<open>
  The body of the \<open>try\<close> of \<open>mintWrap\<close> throws exactly what \<open>initWalletKit\<close> or
  the contract bridge throws; resolving the statistics never throws.
\<close>

lemma mintWrap_try_throws:
  "mintWrap_try env params s = (Inl x, s') \<longleftrightarrow>
     (initWalletKit env = Some x \<and> s' = s) \<or>
     (initWalletKit env = None \<and>
      contractMintWrap env (mintOptions params (resolve_stats env params))
        \<lparr>transactionState = building, transactionHash = None, transactionError = None\<rparr>
        = (Inl x, s'))"
  by (auto simp: mintWrap_try_def Let_def store_updates
      split: option.splits sum.splits prod.splits)

text \<open>
  Claim C4: when the body of \<open>mintWrap\<close> throws an \<open>Error\<close> \<open>e\<close> with the store at
  \<open>s'\<close>, then if \<open>e\<close> is of one of the four typed classes, \<open>mintWrap\<close> throws \<open>e\<close>
  itself and leaves the store at \<open>s'\<close>; otherwise it sets the tag to \<open>failed\<close>,
  records the message of \<open>e\<close> and throws an \<open>Error\<close> whose message is
  \<open>Minting failed: \<close> followed by that message. The observer-driven \<open>mintWrap\<close> has
  no typed branch (nothing it calls throws those classes): every other \<open>Error\<close> goes
  through \<open>markFailed\<close> and is thrown again wrapped in the same way.
\<close>

theorem mintWrap_error_policy:
  "(mintWrap_try env params s = (Inl (Thrown e), s') \<longrightarrow>
      mintWrap env params s =
        (if is_typed_error e then (Inl (Thrown e), s')
         else (Inl (Thrown (JsError PlainError (''Minting failed: '' @ message e))),
               s'\<lparr>transactionState := failed, transactionError := Some (message e)\<rparr>))) \<and>
   (\<not> is_typed_error e \<and> mintWrap_part_000_try init env_value user w = (Inl (Thrown e), w')
      \<longrightarrow>
      fst (mintWrap_part_000 init env_value user w) =
        Inl (JsError PlainError (''Minting failed: '' @ message e)) \<and>
      snd (mintWrap_part_000 init env_value user w) = markFailed (Inl e) w' \<and>
      transactionState (store (markFailed (Inl e) w')) = failed \<and>
      transactionError (store (markFailed (Inl e) w')) = Some (message e))"
  by (simp add: mintWrap_def mintWrap_catch_def mintWrap_part_000_def
      mintWrap_part_000_catch_def store_updates markFailed_def Let_def setState_def)

theorem mintWrap_error_policy_witness:
  "mintWrap (failing_bridge (Thrown (JsError ContractNotFoundError ''no contract'')))
     sample_params initial_store
   = (Inl (Thrown (JsError ContractNotFoundError ''no contract'')),
      \<lparr>transactionState = building, transactionHash = None, transactionError = None\<rparr>) \<and>
   mintWrap (failing_bridge (Thrown (JsError PlainError ''User declined'')))
     sample_params initial_store
   = (Inl (Thrown (JsError PlainError ''Minting failed: User declined'')),
      \<lparr>transactionState = failed, transactionHash = None,
       transactionError = Some ''User declined''\<rparr>) \<and>
   fst (mintWrap_part_000 (Some (Thrown (JsError PlainError ''no window''))) None ''GABC''
     initial_world)
   = Inl (JsError PlainError ''Minting failed: no window'')"
  using mintWrap_error_policy
    [where env = "failing_bridge (Thrown (JsError ContractNotFoundError ''no contract''))"
       and params = sample_params and s = initial_store
       and e = "JsError ContractNotFoundError ''no contract''"
       and s' = "\<lparr>transactionState = building, transactionHash = None,
                  transactionError = None\<rparr>"]
    mintWrap_error_policy
    [where env = "failing_bridge (Thrown (JsError PlainError ''User declined''))"
       and params = sample_params and s = initial_store
       and e = "JsError PlainError ''User declined''"
       and s' = "\<lparr>transactionState = building, transactionHash = None,
                  transactionError = None\<rparr>"]
    mintWrap_error_policy
    [where e = "JsError PlainError ''no window''"
       and init = "Some (Thrown (JsError PlainError ''no window''))"
       and env_value = None and user = "''GABC''" and w = initial_world
       and w' = initial_world]
  by (simp add: mintWrap_try_def failing_bridge_def sample_params_def resolve_stats_def
      is_typed_error_def initial_store_def store_updates Let_def mintWrap_part_000_try_def)

text \<open>
  Claim C10: when the body of \<open>mintWrap\<close> throws a value that is not an \<open>Error\<close>,
  \<open>mintWrap\<close> sets the tag to \<open>failed\<close>, records the message
  \<open>Minting failed: Unknown error occurred\<close> and throws an \<open>Error\<close> with exactly that
  message; so do both versions of \<open>mintWrap\<close>.
\<close>

theorem mintWrap_non_error_thrown:
  "(mintWrap_try env params s = (Inl NonError, s') \<longrightarrow>
      mintWrap env params s =
        (Inl (Thrown (JsError PlainError ''Minting failed: Unknown error occurred'')),
         s'\<lparr>transactionState := failed,
            transactionError := Some ''Minting failed: Unknown error occurred''\<rparr>)) \<and>
   (mintWrap_part_000_try init env_value user w = (Inl NonError, w') \<longrightarrow>
      fst (mintWrap_part_000 init env_value user w) =
        Inl (JsError PlainError ''Minting failed: Unknown error occurred'') \<and>
      transactionState (store (snd (mintWrap_part_000 init env_value user w))) = failed \<and>
      transactionError (store (snd (mintWrap_part_000 init env_value user w))) =
        Some ''Minting failed: Unknown error occurred'')"
  by (simp add: mintWrap_def mintWrap_catch_def mintWrap_part_000_def
      mintWrap_part_000_catch_def store_updates markFailed_def Let_def setState_def)

theorem mintWrap_non_error_thrown_witness:
  "mintWrap (failing_bridge NonError) sample_params initial_store
   = (Inl (Thrown (JsError PlainError ''Minting failed: Unknown error occurred'')),
      \<lparr>transactionState = failed, transactionHash = None,
       transactionError = Some ''Minting failed: Unknown error occurred''\<rparr>) \<and>
   store (snd (mintWrap_part_000 (Some NonError) None ''GABC'' initial_world))
   = \<lparr>transactionState = failed, transactionHash = None,
      transactionError = Some ''Minting failed: Unknown error occurred''\<rparr>"
  using mintWrap_non_error_thrown
    [where env = "failing_bridge NonError" and params = sample_params
       and s = initial_store
       and s' = "\<lparr>transactionState = building, transactionHash = None,
                  transactionError = None\<rparr>"
       and init = "Some NonError" and env_value = None and user = "''GABC''"
       and w = initial_world and w' = initial_world]
  by (simp add: mintWrap_try_def failing_bridge_def sample_params_def resolve_stats_def
      initial_store_def store_updates Let_def mintWrap_part_000_try_def
      mintWrap_part_000_def mintWrap_part_000_catch_def markFailed_def setState_def
      clearTimers_def initial_world_def)

section \<open>Statistics that cannot be fetched\<close>

text \<open>
  Claim C9: when \<open>mintWrap\<close> is called without statistics, \<open>initWalletKit\<close> returns
  and the statistics request is rejected or answered with a response that is not ok, the
  statistics resolved are the defaults (total volume 0, most active asset XLM, contract
  calls 0), and the contract bridge is called with exactly these (and the time frame
  \<open>all\<close>) on a store whose tag is \<open>building\<close>, with no hash and no error.
\<close>

theorem mintWrap_stats_fetch_failure:
  assumes "stats params = None" and "initWalletKit env = None"
    and "fetch env (userAddress params) (network params) ''yearly'' = FetchRejected \<or>
         (\<exists>statusText body. fetch env (userAddress params) (network params) ''yearly''
            = FetchResponse False statusText body)"
  shows "resolve_stats env params =
           \<lparr>totalVolume = 0, mostActiveAsset = ''XLM'', contractCalls = 0, timeframe = None\<rparr> \<and>
         mintWrap_try env params s =
           (case contractMintWrap env
                   \<lparr>accountAddress = userAddress params,
                    options_network = network params,
                    options_stats =
                      \<lparr>totalVolume = 0, mostActiveAsset = ''XLM'', contractCalls = 0,
                       timeframe = Some ''all''\<rparr>,
                    options_observer = bridgedObserver (observer params)\<rparr>
                   \<lparr>transactionState = building, transactionHash = None,
                    transactionError = None\<rparr> of
              (Inl e, s2) \<Rightarrow> (Inl e, s2)
            | (Inr hash, s2) \<Rightarrow>
                (Inr hash, s2\<lparr>transactionState := confirmed, transactionHash := Some hash\<rparr>))"
proof -
  have st: "resolve_stats env params = default_stats"
    using assms
    by (auto simp: resolve_stats_def fetchIndexedStats_def fetchIndexedStats_try_def)
  show ?thesis
    using assms(2)
    by (simp add: st default_stats_def mintWrap_try_def mintOptions_def Let_def store_updates
        split: prod.splits sum.splits)
qed

theorem mintWrap_stats_fetch_failure_witness:
  "stats sample_params = None \<and> initWalletKit returning_bridge = None \<and>
   fetch returning_bridge (userAddress sample_params) (network sample_params) ''yearly''
     = FetchResponse False ''Bad Gateway'' JsonRejected \<and>
   resolve_stats returning_bridge sample_params =
     \<lparr>totalVolume = 0, mostActiveAsset = ''XLM'', contractCalls = 0, timeframe = None\<rparr> \<and>
   mintWrap_try returning_bridge sample_params initial_store =
     (Inr ''XLM'',
      \<lparr>transactionState = confirmed, transactionHash = Some ''XLM'',
       transactionError = None\<rparr>)"
proof -
  have a: "stats sample_params = None" "initWalletKit returning_bridge = None"
    by (simp_all add: sample_params_def returning_bridge_def)
  have b: "fetch returning_bridge (userAddress sample_params) (network sample_params)
      ''yearly'' = FetchResponse False ''Bad Gateway'' JsonRejected"
    by (simp add: returning_bridge_def)
  then have c: "fetch returning_bridge (userAddress sample_params) (network sample_params)
        ''yearly'' = FetchRejected \<or>
      (\<exists>statusText body. fetch returning_bridge (userAddress sample_params)
        (network sample_params) ''yearly'' = FetchResponse False statusText body)"
    by simp
  from mintWrap_stats_fetch_failure [OF a c, of initial_store] a b show ?thesis
    by (simp add: returning_bridge_def)
qed

section \<open>Superseding a mint in flight\<close>

text \<open>
  Claim C2, as stated: once a second mint has started, no timer callback of the first
  session ever writes the store again. It fails: there is no session token, and the part
  of the interval callback that follows \<open>await server.getTransaction\<close> runs whenever the
  answer arrives. Here the first session's tick has issued its query, the second mint
  starts and reaches \<open>simulating\<close>, and then the answer \<open>FAILED\<close> arrives: the store of
  the second mint is set to \<open>failed\<close>.
\<close>

theorem stale_answer_overwrites_second_mint:
  "store (run [Call (MarkSubmitted ''abc''), Env (Elapse 3000), Env (Fire 1),
               Call StartTransaction, Call MarkSimulating,
               Env (Settle (Response FAILED))] initial_world)
   = \<lparr>transactionState = failed, transactionHash = None,
      transactionError = Some ''Transaction failed on the ledger.''\<rparr>"
  by (simp add: observer_defs)

text \<open>
  Claim C2, amended: starting a mint through \<open>startTransaction\<close> clears both timers of
  the session in flight before it writes the store; afterwards no timer is scheduled and
  both handle fields are null, no handle of the first session is ever scheduled again
  (firing one does nothing, whatever calls and events follow), and, provided no status
  query of the first session was awaiting its answer, no event of the runtime changes the
  store or issues a query until the new mint acts. The continuation of a query that was
  in flight when the session was cancelled is not guarded.
\<close>

theorem second_mint_cancels_first_session:
  assumes "owns_timers w"
  shows "timers (resetState w) = [] \<and>
         timers (startTransaction w) = [] \<and>
         pollInterval (startTransaction w) = None \<and>
         timeoutTimer (startTransaction w) = None \<and>
         (\<forall>as h. h < next_handle w \<longrightarrow>
            fire h (run as (startTransaction w)) = run as (startTransaction w)) \<and>
         (in_flight w = 0 \<longrightarrow>
            (\<forall>es. store (run_env es (startTransaction w)) = store (startTransaction w) \<and>
                  queried (run_env es (startTransaction w)) = queried w))"
proof -
  have empty: "timers (startTransaction w) = []"
    using assms by (simp add: startTransaction_fields clearTimers_empty)
  have "handles_from (next_handle w) (startTransaction w)"
    using assms by (simp add: handles_from_def startTransaction_fields clearTimers_empty)
  then have stale: "h < next_handle w \<Longrightarrow>
      fire h (run as (startTransaction w)) = run as (startTransaction w)" for as h
    by (rule fire_stale [OF handles_from_run])
  have calm: "store (run_env es (startTransaction w)) = store (startTransaction w) \<and>
      queried (run_env es (startTransaction w)) = queried w" if "in_flight w = 0" for es
  proof -
    from that empty have "quiet (startTransaction w)"
      by (simp add: quiet_def startTransaction_fields)
    from quiet_run_env [OF this, of es] no_timers_run_env [OF empty, of es]
    show ?thesis by (simp add: startTransaction_fields)
  qed
  show ?thesis
    using assms empty stale calm
    by (simp add: startTransaction_fields resetState_fields clearTimers_empty)
qed

theorem second_mint_cancels_first_session_witness:
  "owns_timers (run [Call (MarkSubmitted ''abc'')] initial_world) \<and>
   timers (startTransaction (run [Call (MarkSubmitted ''abc'')] initial_world)) = [] \<and>
   fire 1 (run [Call MarkSimulating]
     (startTransaction (run [Call (MarkSubmitted ''abc'')] initial_world)))
   = run [Call MarkSimulating]
       (startTransaction (run [Call (MarkSubmitted ''abc'')] initial_world)) \<and>
   store (run_env [Elapse 60000, Fire 1, Fire 2, Settle (Response SUCCESS)]
     (startTransaction (run [Call (MarkSubmitted ''abc'')] initial_world)))
   = \<lparr>transactionState = building, transactionHash = None, transactionError = None\<rparr>"
proof -
  have own: "owns_timers (run [Call (MarkSubmitted ''abc'')] initial_world)"
    by (rule reachable_owns_timers)
  from second_mint_cancels_first_session [OF own] own show ?thesis
    by (simp add: observer_defs)
qed

section \<open>Reset\<close>

text \<open>
  Claim C6, as stated: after a reset nothing writes the store until a new mint starts.
  It fails for the same reason as above: a tick has issued its query, the reset cancels
  both timers and clears the store, and then the answer \<open>SUCCESS\<close> arrives and sets the
  tag to \<open>confirmed\<close>.
\<close>

theorem stale_answer_after_reset:
  "store (run [Call (MarkSubmitted ''abc''), Env (Elapse 3000), Env (Fire 1),
               Call ResetState, Env (Settle (Response SUCCESS))] initial_world)
   = \<lparr>transactionState = confirmed, transactionHash = None, transactionError = None\<rparr>"
  by (simp add: observer_defs)

text \<open>
  Claim C6, amended: \<open>resetState\<close> cancels the poll timer and the deadline timer and
  then yields the tag \<open>idle\<close> with no hash and no error; afterwards no timer is
  scheduled, none is scheduled by the runtime on its own and no further query is issued,
  and, provided no status query was awaiting its answer at the reset, no event of the
  runtime changes the store. The continuation of a query in flight at the reset is not
  guarded.
\<close>

theorem reset_cancels_and_clears:
  assumes "owns_timers w"
  shows "store (resetState w) = initial_store \<and>
         pollInterval (resetState w) = None \<and>
         timeoutTimer (resetState w) = None \<and>
         timers (resetState w) = [] \<and>
         (\<forall>es. timers (run_env es (resetState w)) = [] \<and>
               queried (run_env es (resetState w)) = queried w) \<and>
         (in_flight w = 0 \<longrightarrow>
            (\<forall>es. store (run_env es (resetState w)) = initial_store))"
proof -
  have empty: "timers (resetState w) = []"
    using assms by (simp add: resetState_fields clearTimers_empty)
  have calm: "store (run_env es (resetState w)) = initial_store" if "in_flight w = 0" for es
  proof -
    from that empty have "quiet (resetState w)"
      by (simp add: quiet_def resetState_fields)
    from quiet_run_env [OF this, of es] show ?thesis by (simp add: resetState_fields)
  qed
  show ?thesis
    using empty calm no_timers_run_env [OF empty]
    by (simp add: resetState_fields)
qed

theorem reset_cancels_and_clears_witness:
  "owns_timers (run [Call (MarkSubmitted ''abc''), Env (Elapse 3000)] initial_world) \<and>
   timers (run [Call (MarkSubmitted ''abc''), Env (Elapse 3000)] initial_world) \<noteq> [] \<and>
   resetState (run [Call (MarkSubmitted ''abc''), Env (Elapse 3000)] initial_world)
   = \<lparr>store = initial_store, pollInterval = None, timeoutTimer = None, timers = [],
      clock = 3000, next_handle = 3, in_flight = 0, queried = []\<rparr> \<and>
   store (run_env [Elapse 60000, Fire 1, Fire 2, Settle (Response FAILED)]
     (resetState (run [Call (MarkSubmitted ''abc''), Env (Elapse 3000)] initial_world)))
   = initial_store"
proof -
  have own: "owns_timers (run [Call (MarkSubmitted ''abc''), Env (Elapse 3000)] initial_world)"
    by (rule reachable_owns_timers)
  from reset_cancels_and_clears [OF own] own show ?thesis
    by (simp add: observer_defs)
qed

section \<open>The error message and the tag\<close>

lemma store_run_callback:
  "store (run_callback cb w) = store w \<or>
   (transactionState (store (run_callback cb w)) = failed \<and>
    transactionError (store (run_callback cb w)) \<noteq> None)"
  by (cases cb) (simp_all add: markFailed_fields)

lemma store_fire:
  "store (fire h w) = store w \<or>
   (transactionState (store (fire h w)) = failed \<and>
    transactionError (store (fire h w)) \<noteq> None)"
proof (cases "find (\<lambda>t. handle t = h) (timers w)")
  case None
  then show ?thesis by (simp add: fire_def)
next
  case (Some t)
  show ?thesis
  proof (cases "clock w < due t")
    case True
    with Some show ?thesis by (simp add: fire_def)
  next
    case False
    define w1 where "w1 = (case repeat_ms t of
          Some p \<Rightarrow> w\<lparr>timers := filter (\<lambda>u. handle u \<noteq> h) (timers w) @ [t\<lparr>due := clock w + p\<rparr>]\<rparr>
        | None \<Rightarrow> w\<lparr>timers := filter (\<lambda>u. handle u \<noteq> h) (timers w)\<rparr>)"
    have eq: "fire h w = run_callback (callback t) w1"
      unfolding w1_def using Some False by (simp add: fire_def Let_def)
    have "store w1 = store w"
      by (simp add: w1_def split: option.splits)
    with store_run_callback [of "callback t" w1] show ?thesis
      unfolding eq by simp
  qed
qed

lemma failed_has_error_env_step:
  "failed_has_error w \<Longrightarrow> failed_has_error (env_step e w)"
proof (cases e)
  case (Elapse d)
  assume "failed_has_error w"
  with Elapse show ?thesis by (simp add: failed_has_error_def)
next
  case (Fire h)
  assume "failed_has_error w"
  with Fire store_fire [of h w] show ?thesis
    by (auto simp: failed_has_error_def)
next
  case (Settle r)
  assume "failed_has_error w"
  with Settle show ?thesis
    by (cases "(r, w\<lparr>in_flight := in_flight w - 1\<rparr>)" rule: checkTransactionStatus.cases)
      (auto simp: failed_has_error_def settle_def setState_fields markFailed_fields
        clearTimers_fields setTransactionState_def)
qed

lemma failed_has_error_call_step:
  "failed_has_error w \<Longrightarrow> failed_has_error (call_step c w)"
  by (cases c)
    (auto simp: failed_has_error_def startTransaction_fields markSimulating_def
      markSimulated_def markSigning_def markSigned_def markSubmitting_def markSubmitted_def
      resumeIfPending_def Let_def setState_fields markFailed_fields resetState_fields
      startPolling_fields setTransactionState_def setTransactionHash_def initial_store_def
      split: option.splits)

lemma failed_has_error_run:
  "failed_has_error w \<Longrightarrow> failed_has_error (run as w)"
proof (induction as arbitrary: w)
  case Nil
  then show ?case by simp
next
  case (Cons a as)
  then show ?case
    by (cases a) (simp_all add: failed_has_error_call_step failed_has_error_env_step)
qed

text \<open>
  Claim C7, as stated: in every reachable state the error message is set if and only if
  the tag is \<open>failed\<close>. It fails from right to left: the mutators write the tag and
  nothing else, so a mutator called after a failure leaves the message of the failure
  under a tag that is no longer \<open>failed\<close>.
\<close>

theorem error_message_outlives_failed:
  "store (run [Call (MarkFailed (Inr ''boom'')), Call MarkSimulating] initial_world)
   = \<lparr>transactionState = simulating, transactionHash = None,
      transactionError = Some ''boom''\<rparr>"
  by (simp add: observer_defs)

text \<open>
  Claim C7, amended: in every state reached from the initial one by the observer's
  methods and the runtime's events, if the tag is \<open>failed\<close> then the error message is
  set. (The message is cleared by a reset only, so it can outlive the tag.)
\<close>

theorem failed_has_message:
  "transactionState (store (run as initial_world)) = failed \<longrightarrow>
     transactionError (store (run as initial_world)) \<noteq> None"
proof -
  have "failed_has_error initial_world"
    by (simp add: failed_has_error_def initial_world_def initial_store_def)
  then have "failed_has_error (run as initial_world)"
    by (rule failed_has_error_run)
  then show ?thesis by (simp add: failed_has_error_def)
qed

theorem failed_has_message_witness:
  "transactionState (store (run [Call (MarkSubmitted ''abc''), Env (Elapse 60000),
      Env (Fire 2)] initial_world)) = failed \<and>
   transactionError (store (run [Call (MarkSubmitted ''abc''), Env (Elapse 60000),
      Env (Fire 2)] initial_world)) \<noteq> None"
  using failed_has_message
    [of "[Call (MarkSubmitted ''abc''), Env (Elapse 60000), Env (Fire 2)]"]
  by (simp add: observer_defs)

section \<open>Resuming\<close>

text \<open>
  Claim C8: \<open>resumeIfPending\<close> starts a polling session if and only if the stored tag
  is \<open>submitted\<close> or \<open>confirming\<close> and the stored hash is present and not empty;
  otherwise it changes nothing. The session it starts has fresh handles, polls the stored
  hash every 3000 ms and has its deadline 60000 ms after the moment of the call, whatever
  deadline an earlier session had.
\<close>

theorem resumeIfPending_restarts_fresh:
  assumes "owns_timers w"
  shows "(resumeIfPending w \<noteq> w \<longleftrightarrow> pending_with_hash w) \<and>
         (pending_with_hash w \<longrightarrow>
            (\<exists>h. transactionHash (store w) = Some h \<and>
              resumeIfPending w = startPolling h w \<and>
              pollInterval (resumeIfPending w) = Some (next_handle w) \<and>
              timeoutTimer (resumeIfPending w) = Some (Suc (next_handle w)) \<and>
              timers (resumeIfPending w) =
                [\<lparr>handle = next_handle w, callback = PollTick h, due = clock w + 3000,
                  repeat_ms = Some 3000\<rparr>,
                 \<lparr>handle = Suc (next_handle w), callback = DeadlineTick,
                  due = clock w + 60000, repeat_ms = None\<rparr>]))"
proof (cases "pending_with_hash w")
  case True
  then obtain h where h: "transactionHash (store w) = Some h" "h \<noteq> []"
    by (auto simp: pending_with_hash_def split: option.splits)
  with True have eq: "resumeIfPending w = startPolling h w"
    by (auto simp: resumeIfPending_def pending_with_hash_def Let_def)
  have "next_handle (startPolling h w) \<noteq> next_handle w"
    by (simp add: startPolling_fields)
  then have "startPolling h w \<noteq> w" by auto
  with True h eq assms show ?thesis
    by (simp add: startPolling_fields clearTimers_empty POLLING_INTERVAL_def
        MAX_POLLING_DURATION_def)
next
  case False
  then have "resumeIfPending w = w"
    by (auto simp: resumeIfPending_def pending_with_hash_def Let_def split: option.splits)
  with False show ?thesis by simp
qed

theorem resumeIfPending_restarts_fresh_witness:
  "owns_timers (run [Call (MarkSubmitted ''abc''), Env (Elapse 45000)] initial_world) \<and>
   pending_with_hash (run [Call (MarkSubmitted ''abc''), Env (Elapse 45000)] initial_world) \<and>
   timers (run [Call (MarkSubmitted ''abc''), Env (Elapse 45000)] initial_world) =
     [\<lparr>handle = 1, callback = PollTick ''abc'', due = 3000, repeat_ms = Some 3000\<rparr>,
      \<lparr>handle = 2, callback = DeadlineTick, due = 60000, repeat_ms = None\<rparr>] \<and>
   timers (resumeIfPending
     (run [Call (MarkSubmitted ''abc''), Env (Elapse 45000)] initial_world)) =
     [\<lparr>handle = 3, callback = PollTick ''abc'', due = 48000, repeat_ms = Some 3000\<rparr>,
      \<lparr>handle = 4, callback = DeadlineTick, due = 105000, repeat_ms = None\<rparr>] \<and>
   \<not> pending_with_hash initial_world \<and> resumeIfPending initial_world = initial_world"
proof -
  have own: "owns_timers (run [Call (MarkSubmitted ''abc''), Env (Elapse 45000)] initial_world)"
    "owns_timers initial_world"
    using reachable_owns_timers [of "[Call (MarkSubmitted ''abc''), Env (Elapse 45000)]"]
      reachable_owns_timers [of "[]"]
    by simp_all
  from resumeIfPending_restarts_fresh [OF own(1)] resumeIfPending_restarts_fresh [OF own(2)]
    own(1)
  show ?thesis
    by (simp add: observer_defs pending_with_hash_def)
qed

section \<open>The polling session\<close>

lemma awaiting_startPolling:
  "owns_timers w \<Longrightarrow>
   awaiting_deadline txHash (next_handle w) (Suc (next_handle w))
     (clock w + MAX_POLLING_DURATION) (setTransactionState confirming (store w))
     (startPolling txHash w)"
  by (simp add: awaiting_deadline_def owns_startPolling startPolling_fields clearTimers_empty)

lemma owns_rest:
  "owns_timers w \<Longrightarrow> owns_timers (w\<lparr>timers := filter (\<lambda>u. handle u \<noteq> h) (timers w)\<rparr>)"
  by (auto simp: owns_timers_def list_all_iff distinct_map_filter)

lemma fire_deadline:
  assumes a: "awaiting_deadline txHash i j D s w" and d: "D \<le> clock w"
  shows "timed_out D (fire j w)"
proof -
  from a obtain t where t: "t \<in> set (timers w)" "handle t = j"
    by (auto simp: awaiting_deadline_def)
  then obtain t' where f: "find (\<lambda>t. handle t = j) (timers w) = Some t'"
    by (cases "find (\<lambda>t. handle t = j) (timers w)") (auto simp: find_None_iff)
  then have t': "t' \<in> set (timers w)" "handle t' = j"
    by (auto simp: find_Some_iff)
  with a have k: "callback t' = DeadlineTick" "due t' = D" "repeat_ms t' = None"
    by (auto simp: awaiting_deadline_def list_all_iff)
  define w1 where "w1 = w\<lparr>timers := filter (\<lambda>u. handle u \<noteq> j) (timers w)\<rparr>"
  have eq: "fire j w =
      markFailed (Inr ''Transaction confirmation timed out after 60 seconds.'') (clearTimers w1)"
    unfolding w1_def using f k d by (simp add: fire_def Let_def)
  have "owns_timers w1"
    unfolding w1_def using a by (simp add: awaiting_deadline_def owns_rest)
  then have "timers (clearTimers w1) = []" by (rule clearTimers_empty)
  then show ?thesis
    unfolding eq using d
    by (simp add: timed_out_def markFailed_fields clearTimers_fields clearTimers_timers w1_def)
qed

lemma fire_awaiting:
  assumes a: "awaiting_deadline txHash i j D s w"
  shows "awaiting_deadline txHash i j D s (fire h w) \<or> timed_out D (fire h w)"
proof (cases "find (\<lambda>t. handle t = h) (timers w)")
  case None
  with a show ?thesis by (simp add: fire_def)
next
  case (Some t)
  then have t: "t \<in> set (timers w)" "handle t = h"
    by (auto simp: find_Some_iff)
  show ?thesis
  proof (cases "clock w < due t")
    case True
    with Some a show ?thesis by (simp add: fire_def)
  next
    case due: False
    show ?thesis
    proof (cases "h = j")
      case True
      with a t have "due t = D"
        by (auto simp: awaiting_deadline_def list_all_iff)
      with due have "D \<le> clock w" by simp
      with a True show ?thesis by (simp add: fire_deadline)
    next
      case False
      with a t have "callback t = PollTick txHash \<and> repeat_ms t \<noteq> None"
        by (auto simp: awaiting_deadline_def list_all_iff)
      then obtain p where k: "callback t = PollTick txHash" "repeat_ms t = Some p"
        by (cases "repeat_ms t") auto
      have eq: "fire h w =
          w\<lparr>timers := filter (\<lambda>u. handle u \<noteq> h) (timers w) @ [t\<lparr>due := clock w + p\<rparr>],
            in_flight := Suc (in_flight w), queried := queried w @ [txHash]\<rparr>"
        using Some due k by (simp add: fire_def Let_def)
      have own: "owns_timers (fire h w)"
        using a by (simp add: awaiting_deadline_def owns_fire)
      have "awaiting_deadline txHash i j D s (fire h w)"
        unfolding awaiting_deadline_def
      proof (intro conjI)
        show "owns_timers (fire h w)" by (rule own)
        show "pollInterval (fire h w) = Some i" "timeoutTimer (fire h w) = Some j" "i \<noteq> j"
          "store (fire h w) = s"
          using a by (simp_all add: eq awaiting_deadline_def)
        show "list_all (\<lambda>t. if handle t = j
                     then callback t = DeadlineTick \<and> due t = D \<and> repeat_ms t = None
                     else callback t = PollTick txHash \<and> repeat_ms t \<noteq> None)
                (timers (fire h w))"
          using a t k False by (auto simp: eq awaiting_deadline_def list_all_iff)
        show "j \<in> handle ` set (timers (fire h w))"
          using a False by (auto simp: eq awaiting_deadline_def)
        have tm: "timers (fire h w) =
            filter (\<lambda>u. handle u \<noteq> h) (timers w) @ [t\<lparr>due := clock w + p\<rparr>]"
          by (simp add: eq)
        from a have "i \<in> handle ` set (timers w)"
          by (simp add: awaiting_deadline_def)
        with t show "i \<in> handle ` set (timers (fire h w))"
          unfolding tm by (cases "h = i") auto
      qed
      then show ?thesis ..
    qed
  qed
qed

lemma awaiting_env_step:
  assumes "awaiting_deadline txHash i j D s w" and "no_verdict e"
  shows "awaiting_deadline txHash i j D s (env_step e w) \<or> timed_out D (env_step e w)"
proof (cases e)
  case (Elapse d)
  with assms(1) show ?thesis by (auto simp: awaiting_deadline_def owns_timers_def)
next
  case (Fire h)
  with fire_awaiting [OF assms(1), of h] show ?thesis by simp
next
  case (Settle r)
  with assms show ?thesis
    by (cases "(r, w\<lparr>in_flight := in_flight w - 1\<rparr>)" rule: checkTransactionStatus.cases)
      (auto simp: settle_def awaiting_deadline_def owns_timers_def)
qed

lemma timed_out_env_step:
  assumes "timed_out D w" and "no_verdict e"
  shows "timed_out D (env_step e w)"
proof (cases e)
  case (Elapse d)
  with assms show ?thesis by (simp add: timed_out_def)
next
  case (Fire h)
  with assms show ?thesis by (simp add: timed_out_def fire_def)
next
  case (Settle r)
  with assms show ?thesis
    by (cases "(r, w\<lparr>in_flight := in_flight w - 1\<rparr>)" rule: checkTransactionStatus.cases)
      (auto simp: settle_def timed_out_def)
qed

lemma polling_run_env:
  "awaiting_deadline txHash i j D s w \<or> timed_out D w \<Longrightarrow> list_all no_verdict es \<Longrightarrow>
   awaiting_deadline txHash i j D s (run_env es w) \<or> timed_out D (run_env es w)"
proof (induction es arbitrary: w)
  case Nil
  then show ?case by simp
next
  case (Cons e es)
  from Cons.prems have e: "no_verdict e" and es: "list_all no_verdict es"
    by simp_all
  from Cons.prems(1) e
  have "awaiting_deadline txHash i j D s (env_step e w) \<or> timed_out D (env_step e w)"
    using awaiting_env_step timed_out_env_step by blast
  from Cons.IH [OF this es] show ?case by simp
qed

section \<open>Transient errors of the status query\<close>

text \<open>
  Claim C5: a status query that is rejected changes nothing: the store (tag, hash and
  error message), the scheduled timers and both handle fields are as before. For a whole
  tick of an active session, where the interval timer \<open>h\<close> is due, fires, issues the
  query and the query is rejected, the store and the handle fields are unchanged and the
  interval timer is scheduled again one period later, so polling goes on. Over a whole
  session in which every answer is a rejection, the store stays as \<open>startPolling\<close>
  left it and the interval timer stays scheduled, until the deadline fires; the tag
  becomes \<open>failed\<close> by the deadline only.
\<close>

theorem transient_query_error_ignored:
  "store (settle Rejected w) = store w \<and>
   timers (settle Rejected w) = timers w \<and>
   pollInterval (settle Rejected w) = pollInterval w \<and>
   timeoutTimer (settle Rejected w) = timeoutTimer w \<and>
   (find (\<lambda>t. handle t = h) (timers w) = Some t \<and> callback t = PollTick txHash \<and>
    repeat_ms t = Some p \<and> due t \<le> clock w \<longrightarrow>
      store (settle Rejected (fire h w)) = store w \<and>
      pollInterval (settle Rejected (fire h w)) = pollInterval w \<and>
      timeoutTimer (settle Rejected (fire h w)) = timeoutTimer w \<and>
      queried (settle Rejected (fire h w)) = queried w @ [txHash] \<and>
      timers (settle Rejected (fire h w)) =
        filter (\<lambda>u. handle u \<noteq> h) (timers w) @ [t\<lparr>due := clock w + p\<rparr>]) \<and>
   (owns_timers w0 \<and> list_all rejected_only es \<longrightarrow>
      store (run_env es (startPolling polled w0)) = store (startPolling polled w0) \<and>
      (\<exists>t \<in> set (timers (run_env es (startPolling polled w0))).
         handle t = next_handle w0 \<and> callback t = PollTick polled)
      \<or>
      timers (run_env es (startPolling polled w0)) = [] \<and>
      clock w0 + 60000 \<le> clock (run_env es (startPolling polled w0)) \<and>
      transactionState (store (run_env es (startPolling polled w0))) = failed \<and>
      transactionError (store (run_env es (startPolling polled w0))) =
        Some ''Transaction confirmation timed out after 60 seconds.'')"
proof -
  have tick: "store (settle Rejected w) = store w \<and>
     timers (settle Rejected w) = timers w \<and>
     pollInterval (settle Rejected w) = pollInterval w \<and>
     timeoutTimer (settle Rejected w) = timeoutTimer w \<and>
     (find (\<lambda>t. handle t = h) (timers w) = Some t \<and> callback t = PollTick txHash \<and>
      repeat_ms t = Some p \<and> due t \<le> clock w \<longrightarrow>
        store (settle Rejected (fire h w)) = store w \<and>
        pollInterval (settle Rejected (fire h w)) = pollInterval w \<and>
        timeoutTimer (settle Rejected (fire h w)) = timeoutTimer w \<and>
        queried (settle Rejected (fire h w)) = queried w @ [txHash] \<and>
        timers (settle Rejected (fire h w)) =
          filter (\<lambda>u. handle u \<noteq> h) (timers w) @ [t\<lparr>due := clock w + p\<rparr>])"
    by (simp add: settle_def fire_def Let_def)
  define w' where "w' = run_env es (startPolling polled w0)"
  define D where "D = clock w0 + MAX_POLLING_DURATION"
  define s where "s = setTransactionState confirming (store w0)"
  have session: "store w' = store (startPolling polled w0) \<and>
        (\<exists>t \<in> set (timers w'). handle t = next_handle w0 \<and> callback t = PollTick polled)
      \<or> timed_out D w'"
    if own: "owns_timers w0" and rej: "list_all rejected_only es"
  proof -
    have nv: "list_all no_verdict es"
      using rej by (induction es) (auto elim: rejected_only.elims)
    have "awaiting_deadline polled (next_handle w0) (Suc (next_handle w0)) D s
        (startPolling polled w0)"
      unfolding D_def s_def using own by (rule awaiting_startPolling)
    then have "awaiting_deadline polled (next_handle w0) (Suc (next_handle w0)) D s w'
        \<or> timed_out D w'"
      unfolding w'_def using nv polling_run_env by blast
    then show ?thesis
    proof
      assume a: "awaiting_deadline polled (next_handle w0) (Suc (next_handle w0)) D s w'"
      then obtain t where "t \<in> set (timers w')" "handle t = next_handle w0"
        by (auto simp: awaiting_deadline_def)
      with a have "\<exists>t \<in> set (timers w').
          handle t = next_handle w0 \<and> callback t = PollTick polled"
        by (auto simp: awaiting_deadline_def list_all_iff)
      moreover from a have "store w' = store (startPolling polled w0)"
        by (simp add: awaiting_deadline_def s_def startPolling_fields)
      ultimately show ?thesis by simp
    next
      assume "timed_out D w'"
      then show ?thesis by simp
    qed
  qed
  from tick session show ?thesis
    unfolding w'_def D_def by (simp add: timed_out_def MAX_POLLING_DURATION_def)
qed

theorem transient_query_error_ignored_witness:
  "find (\<lambda>t. handle t = 1)
     (timers (run [Call (MarkSubmitted ''abc''), Env (Elapse 3000)] initial_world))
   = Some \<lparr>handle = 1, callback = PollTick ''abc'', due = 3000, repeat_ms = Some 3000\<rparr> \<and>
   store (settle Rejected
     (fire 1 (run [Call (MarkSubmitted ''abc''), Env (Elapse 3000)] initial_world)))
   = \<lparr>transactionState = confirming, transactionHash = Some ''abc'',
      transactionError = None\<rparr> \<and>
   timers (settle Rejected
     (fire 1 (run [Call (MarkSubmitted ''abc''), Env (Elapse 3000)] initial_world)))
   = [\<lparr>handle = 2, callback = DeadlineTick, due = 60000, repeat_ms = None\<rparr>,
      \<lparr>handle = 1, callback = PollTick ''abc'', due = 6000, repeat_ms = Some 3000\<rparr>] \<and>
   owns_timers initial_world \<and>
   list_all rejected_only [Elapse 3000, Fire 1, Settle Rejected, Elapse 3000, Fire 1] \<and>
   store (run_env [Elapse 3000, Fire 1, Settle Rejected, Elapse 3000, Fire 1]
     (startPolling ''abc'' initial_world))
   = \<lparr>transactionState = confirming, transactionHash = None, transactionError = None\<rparr>"
proof -
  have own: "owns_timers initial_world"
    using reachable_owns_timers [of "[]"] by simp
  from transient_query_error_ignored
    [where w = "run [Call (MarkSubmitted ''abc''), Env (Elapse 3000)] initial_world"
       and h = 1 and txHash = "''abc''" and p = 3000
       and t = "\<lparr>handle = 1, callback = PollTick ''abc'', due = 3000,
                 repeat_ms = Some 3000\<rparr>"
       and ?w0.0 = initial_world and polled = "''abc''"
       and es = "[Elapse 3000, Fire 1, Settle Rejected, Elapse 3000, Fire 1]"]
    own
  show ?thesis
    by (simp add: observer_defs)
qed

section \<open>The polling deadline\<close>

text \<open>
  Claim C3, as stated: at the deadline the tag becomes \<open>failed\<close> with the message
  \<open>confirmation timed out after <maxDurationMs> ms\<close>, the configured duration
  substituted. It fails on the message: the text is fixed in the deadline callback and
  does not contain the duration in milliseconds.
\<close>

theorem deadline_text_is_fixed:
  "transactionError (store (run [Call (MarkSubmitted ''abc''), Env (Elapse 60000),
      Env (Fire 2)] initial_world))
   = Some ''Transaction confirmation timed out after 60 seconds.'' \<and>
   transactionError (store (run [Call (MarkSubmitted ''abc''), Env (Elapse 60000),
      Env (Fire 2)] initial_world))
   \<noteq> Some ''confirmation timed out after 60000 ms''"
  by (simp add: observer_defs)

text \<open>
  Claim C3, amended: in a polling session started at time \<open>T\<close> in which every status
  query is answered \<open>NOT_FOUND\<close>, at any later moment either the tag is still
  \<open>confirming\<close> and the deadline timer is scheduled for \<open>T + 60000\<close>, or the clock
  has reached \<open>T + 60000\<close>, the tag is \<open>failed\<close> with the fixed message
  \<open>Transaction confirmation timed out after 60 seconds.\<close>, no timer is scheduled and
  no event of the runtime issues a further status query. Once the clock has reached
  \<open>T + 60000\<close>, the deadline timer's firing yields that state.
\<close>

theorem polling_times_out:
  assumes "owns_timers w0" and "list_all not_found_only es"
  shows "(transactionState (store (run_env es (startPolling txHash w0))) = confirming \<and>
          (\<exists>t \<in> set (timers (run_env es (startPolling txHash w0))).
             handle t = Suc (next_handle w0) \<and> callback t = DeadlineTick \<and>
             due t = clock w0 + 60000)
          \<or>
          clock w0 + 60000 \<le> clock (run_env es (startPolling txHash w0)) \<and>
          transactionState (store (run_env es (startPolling txHash w0))) = failed \<and>
          transactionError (store (run_env es (startPolling txHash w0))) =
            Some ''Transaction confirmation timed out after 60 seconds.'' \<and>
          timers (run_env es (startPolling txHash w0)) = [] \<and>
          (\<forall>es'. queried (run_env es' (run_env es (startPolling txHash w0))) =
                 queried (run_env es (startPolling txHash w0)))) \<and>
         (clock w0 + 60000 \<le> clock (run_env es (startPolling txHash w0)) \<longrightarrow>
            transactionState
              (store (fire (Suc (next_handle w0)) (run_env es (startPolling txHash w0))))
              = failed \<and>
            transactionError
              (store (fire (Suc (next_handle w0)) (run_env es (startPolling txHash w0))))
              = Some ''Transaction confirmation timed out after 60 seconds.'' \<and>
            timers (fire (Suc (next_handle w0)) (run_env es (startPolling txHash w0))) = [])"
proof -
  define w where "w = run_env es (startPolling txHash w0)"
  define j where "j = Suc (next_handle w0)"
  define D where "D = clock w0 + MAX_POLLING_DURATION"
  have D: "D = clock w0 + 60000" by (simp add: D_def MAX_POLLING_DURATION_def)
  define s where "s = setTransactionState confirming (store w0)"
  have nv: "list_all no_verdict es"
    using assms(2) by (induction es) (auto elim: not_found_only.elims)
  have "awaiting_deadline txHash (next_handle w0) j D s (startPolling txHash w0)"
    unfolding j_def D_def s_def using assms(1) by (rule awaiting_startPolling)
  then have cases: "awaiting_deadline txHash (next_handle w0) j D s w \<or> timed_out D w"
    unfolding w_def using nv polling_run_env by blast
  have first: "
      (transactionState (store w) = confirming \<and>
       (\<exists>t \<in> set (timers w). handle t = j \<and> callback t = DeadlineTick \<and> due t = D))
      \<or>
      (D \<le> clock w \<and> transactionState (store w) = failed \<and>
       transactionError (store w) =
         Some ''Transaction confirmation timed out after 60 seconds.'' \<and>
       timers w = [] \<and> (\<forall>es'. queried (run_env es' w) = queried w))"
    using cases
  proof
    assume "awaiting_deadline txHash (next_handle w0) j D s w"
    then show ?thesis
      by (auto simp: awaiting_deadline_def list_all_iff s_def setTransactionState_def)
  next
    assume t: "timed_out D w"
    then have "timers w = []" by (simp add: timed_out_def)
    from no_timers_run_env [OF this] t show ?thesis by (simp add: timed_out_def)
  qed
  have second: "timed_out D (fire j w)" if "D \<le> clock w"
    using cases
  proof
    assume "awaiting_deadline txHash (next_handle w0) j D s w"
    from fire_deadline [OF this that] show ?thesis .
  next
    assume "timed_out D w"
    then show ?thesis by (simp add: timed_out_def fire_def)
  qed
  from first second show ?thesis
    unfolding w_def j_def D by (simp add: timed_out_def)
qed

theorem polling_times_out_witness:
  "owns_timers initial_world \<and>
   list_all not_found_only
     [Elapse 3000, Fire 1, Settle (Response NOT_FOUND), Elapse 57000, Fire 2] \<and>
   run_env [Elapse 3000, Fire 1, Settle (Response NOT_FOUND), Elapse 57000, Fire 2]
     (startPolling ''abc'' initial_world)
   = \<lparr>store = \<lparr>transactionState = failed, transactionHash = None,
        transactionError = Some ''Transaction confirmation timed out after 60 seconds.''\<rparr>,
      pollInterval = None, timeoutTimer = None, timers = [], clock = 60000,
      next_handle = 3, in_flight = 0, queried = [''abc'']\<rparr> \<and>
   transactionState (store (run_env [Elapse 3000, Fire 1, Settle (Response NOT_FOUND)]
     (startPolling ''abc'' initial_world))) = confirming"
proof -
  have own: "owns_timers initial_world"
    using reachable_owns_timers [of "[]"] by simp
  have nf: "list_all not_found_only
      [Elapse 3000, Fire 1, Settle (Response NOT_FOUND), Elapse 57000, Fire 2]"
    "list_all not_found_only [Elapse 3000, Fire 1, Settle (Response NOT_FOUND)]"
    by simp_all
  from polling_times_out [OF own nf(1), of "''abc''"]
    polling_times_out [OF own nf(2), of "''abc''"] own
  show ?thesis
    by (simp add: observer_defs)
qed

end
